theory Spec2Isabelle
  imports Complex_Main "HOL-Library.Sublist" "HOL-Library.Multiset"
begin

section \<open>Data model\<close>

text \<open>
  The analysis functions of \<^verbatim>\<open>src/anomaly_insights.py\<close> and
  \<^verbatim>\<open>src/data_quality.py\<close> work on pandas frames. Numbers are reals and arithmetic
  written in the source is exact; the doubles that the library's \<^verbatim>\<open>mean\<close> and \<^verbatim>\<open>std\<close>
  compute are parameters of the model (see the column reductions). A missing value
  (pandas \<^verbatim>\<open>NaN\<close>) is a value of its own, so that the skip-missing reductions and the
  propagation of \<^verbatim>\<open>NaN\<close> through arithmetic are branches of the model. Exceptions are
  values of type \<open>error\<close>.
\<close>

datatype error = KeyError | TypeError | IndexError | ValueError

text \<open>A cell of a data column: a number, a missing value, or a non-numeric object (text).\<close>

datatype cell = Num real | NaN | Str string

text \<open>
  An event record, as \<^verbatim>\<open>get_anomaly_events\<close> builds it. Times are seconds on the real
  line (a parsed, non-missing time stamp), so that \<^verbatim>\<open>total_seconds() / 60\<close> is a
  division by 60. \<open>None\<close> in \<open>max_anomaly_score\<close> is \<^verbatim>\<open>NaN\<close>.
\<close>

record event =
  start_time :: real
  end_time :: real
  duration_mins :: real
  status :: string
  max_anomaly_score :: "real option"

text \<open>A Python float that may be \<^verbatim>\<open>float('inf')\<close>.\<close>

datatype number = Finite real | Infinity

record metrics =
  MTBF :: number
  MTTR :: real

section \<open>Reliability calculator and financial risk estimator\<close>

text \<open>\<^verbatim>\<open>events_df['status'].isin(['BROKEN', 'RECOVERING'])\<close>\<close>

definition is_failure :: "string \<Rightarrow> bool" where
  "is_failure s \<longleftrightarrow> s \<in> set [''BROKEN'', ''RECOVERING'']"

text \<open>
  \<^verbatim>\<open>calculate_reliability_metrics(events_df, total_duration_hours)\<close>: an events frame is
  the list of its rows; the frame is \<^verbatim>\<open>empty\<close> when it has no row.
\<close>

definition calculate_reliability_metrics :: "event list \<Rightarrow> real \<Rightarrow> metrics" where
  "calculate_reliability_metrics events_df total_duration_hours =
     (if events_df = [] then \<lparr>MTBF = Infinity, MTTR = 0\<rparr>
      else
        let failures = filter (\<lambda>e. is_failure (status e)) events_df;
            num_failures = length failures
        in if num_failures = 0 then \<lparr>MTBF = Infinity, MTTR = 0\<rparr>
           else
             let total_downtime_hours = sum_list (map duration_mins failures) / 60;
                 total_uptime_hours = total_duration_hours - total_downtime_hours;
                 mtbf = (if num_failures > 0 then total_uptime_hours / real num_failures else 0);
                 mttr = (total_downtime_hours / real num_failures) * 60
             in \<lparr>MTBF = Finite mtbf, MTTR = mttr\<rparr>)"

text \<open>\<^verbatim>\<open>calculate_financial_risk(events_df, cost_per_minute)\<close>\<close>

definition calculate_financial_risk :: "event list \<Rightarrow> real \<Rightarrow> real" where
  "calculate_financial_risk events_df cost_per_minute =
     (if events_df = [] then 0
      else
        let total_downtime_minutes = sum_list (map duration_mins events_df)
        in total_downtime_minutes * cost_per_minute)"

text \<open>The events used in the examples.\<close>

definition broken_60 :: event where
  "broken_60 = \<lparr>start_time = 0, end_time = 3600, duration_mins = 60, status = ''BROKEN'',
     max_anomaly_score = Some 0\<rparr>"

definition normal_60 :: event where
  "normal_60 = \<lparr>start_time = 0, end_time = 3600, duration_mins = 60, status = ''NORMAL'',
     max_anomaly_score = Some 0\<rparr>"

section \<open>Datasets\<close>

text \<open>
  A row of the analysed frame: its time stamp, its machine status, its anomaly score
  (\<open>None\<close> is \<^verbatim>\<open>NaN\<close>; read only when the frame has the column) and the cells of its
  other columns by name. A dataset is the list of the frame's column names, in frame order,
  and the list of its rows, in frame order.
\<close>

record row =
  timestamp :: real
  machine_status :: string
  anomaly_score :: "real option"
  sensors :: "string \<Rightarrow> cell"

record dataset =
  columns :: "string list"
  rows :: "row list"

text \<open>\<^verbatim>\<open>df.empty\<close>: no row or no column.\<close>

definition df_empty :: "dataset \<Rightarrow> bool" where
  "df_empty df \<longleftrightarrow> rows df = [] \<or> columns df = []"

text \<open>\<^verbatim>\<open>[c for c in df.columns if 'sensor' in c]\<close>\<close>

definition sensor_cols :: "dataset \<Rightarrow> string list" where
  "sensor_cols df = filter (\<lambda>c. sublist ''sensor'' c) (columns df)"

text \<open>\<^verbatim>\<open>frame[sensor]\<close> for a list of rows of the frame.\<close>

definition col :: "row list \<Rightarrow> string \<Rightarrow> cell list" where
  "col rs sensor = map (\<lambda>r. sensors r sensor) rs"

section \<open>Column reductions\<close>

text \<open>
  The pandas reductions skip missing values and compute in double precision. The double
  that \<^verbatim>\<open>mean()\<close> returns on the values of a column, and the one that \<^verbatim>\<open>std()\<close> returns,
  are the parameters \<open>fmean\<close> and \<open>fstd\<close> of the model: a test such as
  \<^verbatim>\<open>std() == 0\<close> is decided by the computed number, as in the program, and not by the
  exact deviation. What does not depend on rounding is modelled: on a column that holds a
  non-numeric object the reductions raise; on no value at all \<^verbatim>\<open>mean\<close> and \<^verbatim>\<open>max\<close> are
  \<^verbatim>\<open>NaN\<close>; the sample standard deviation (\<^verbatim>\<open>ddof=1\<close>) is \<^verbatim>\<open>NaN\<close> on fewer than two
  values.
\<close>

fun is_text :: "cell \<Rightarrow> bool" where
  "is_text (Str _) = True"
| "is_text _ = False"

fun numbers :: "cell list \<Rightarrow> real list" where
  "numbers [] = []"
| "numbers (Num x # cs) = x # numbers cs"
| "numbers (_ # cs) = numbers cs"

definition series_mean :: "(real list \<Rightarrow> real) \<Rightarrow> real list \<Rightarrow> real option" where
  "series_mean fmean xs = (if xs = [] then None else Some (fmean xs))"

definition series_std :: "(real list \<Rightarrow> real) \<Rightarrow> real list \<Rightarrow> real option" where
  "series_std fstd xs = (if length xs \<le> 1 then None else Some (fstd xs))"

definition col_mean :: "(real list \<Rightarrow> real) \<Rightarrow> cell list \<Rightarrow> error + real option" where
  "col_mean fmean cs =
     (if list_ex is_text cs then Inl TypeError else Inr (series_mean fmean (numbers cs)))"

definition col_std :: "(real list \<Rightarrow> real) \<Rightarrow> cell list \<Rightarrow> error + real option" where
  "col_std fstd cs =
     (if list_ex is_text cs then Inl TypeError else Inr (series_std fstd (numbers cs)))"

text \<open>
  The mean and the sample deviation in exact arithmetic. They stand for \<open>fmean\<close> and \<open>fstd\<close>
  in the examples, whose columns are small integers on which the doubles are exact or, for
  a deviation that is not 0, not 0.
\<close>

definition exact_mean :: "real list \<Rightarrow> real" where
  "exact_mean xs = sum_list xs / real (length xs)"

definition sq_dev :: "real list \<Rightarrow> real" where
  "sq_dev xs = sum_list (map (\<lambda>x. (x - sum_list xs / real (length xs))\<^sup>2) xs)"

definition exact_std :: "real list \<Rightarrow> real" where
  "exact_std xs = sqrt (sq_dev xs / real (length xs - 1))"

text \<open>\<^verbatim>\<open>Series.max()\<close> of a numeric column.\<close>

definition nanmax :: "real option list \<Rightarrow> real option" where
  "nanmax xs = (let vs = List.map_filter id xs in if vs = [] then None else Some (Max (set vs)))"

text \<open>
  \<^verbatim>\<open>sort_values(key, ascending=False)\<close> on a key without missing values: pandas reverses
  the rows, sorts them ascending and reverses the result. The order of rows with equal keys
  is that of a stable sort; the theorems below do not depend on it.
\<close>

definition sort_values_desc :: "('a \<Rightarrow> real) \<Rightarrow> 'a list \<Rightarrow> 'a list" where
  "sort_values_desc key xs = rev (sort_key key (rev xs))"

section \<open>Event extractor\<close>

text \<open>\<^verbatim>\<open>temp_df['machine_status'].shift() != temp_df['machine_status']\<close>: the first row
  has no predecessor and compares unequal.\<close>

fun status_change :: "string option \<Rightarrow> string list \<Rightarrow> bool list" where
  "status_change prev [] = []"
| "status_change prev (s # ss) = (prev \<noteq> Some s) # status_change (Some s) ss"

fun cumsum :: "nat \<Rightarrow> bool list \<Rightarrow> nat list" where
  "cumsum acc [] = []"
| "cumsum acc (b # bs) = (acc + of_bool b) # cumsum (acc + of_bool b) bs"

text \<open>\<^verbatim>\<open>groupby(keys)\<close>: one group per distinct key, in ascending key order, each with
  the rows of its key in frame order.\<close>

definition key_rows :: "nat list \<Rightarrow> 'a list \<Rightarrow> nat \<Rightarrow> 'a list" where
  "key_rows keys xs k = map snd (filter (\<lambda>p. fst p = k) (zip keys xs))"

definition groupby :: "nat list \<Rightarrow> 'a list \<Rightarrow> 'a list list" where
  "groupby keys xs = map (key_rows keys xs) (sort (remdups keys))"

definition state_groups :: "row list \<Rightarrow> row list list" where
  "state_groups rs = groupby (cumsum 0 (status_change None (map machine_status rs))) rs"

text \<open>
  The groups in the words of the specification: walk the rows, a row joins the run of its
  successor when their statuses are equal and starts a run otherwise.
\<close>

fun status_runs :: "row list \<Rightarrow> row list list" where
  "status_runs [] = []"
| "status_runs (r # rs) =
     (case status_runs rs of
        [] \<Rightarrow> [[r]]
      | g # gs \<Rightarrow>
          if machine_status r = machine_status (hd g) then (r # g) # gs else [r] # g # gs)"

text \<open>The event of a run in the words of the specification: from its first row to its
  last.\<close>

definition run_event :: "bool \<Rightarrow> row list \<Rightarrow> event" where
  "run_event has_score g =
     \<lparr>start_time = timestamp (hd g),
      end_time = timestamp (last g),
      duration_mins = (timestamp (last g) - timestamp (hd g)) / 60,
      status = machine_status (hd g),
      max_anomaly_score = (if has_score then nanmax (map anomaly_score g) else Some 0)\<rparr>"

text \<open>The body of the loop over the groups: \<open>Inr None\<close> when the group's status is not a
  failure status.\<close>

definition group_event :: "bool \<Rightarrow> row list \<Rightarrow> error + event option" where
  "group_event has_score grp =
     (case grp of
        [] \<Rightarrow> Inl IndexError
      | r # _ \<Rightarrow>
          if is_failure (machine_status r) then
            Inr (Some \<lparr>start_time = Min (set (map timestamp grp)),
                       end_time = Max (set (map timestamp grp)),
                       duration_mins = (Max (set (map timestamp grp)) - Min (set (map timestamp grp))) / 60,
                       status = machine_status r,
                       max_anomaly_score = (if has_score then nanmax (map anomaly_score grp) else Some 0)\<rparr>)
          else Inr None)"

fun collect_events :: "bool \<Rightarrow> row list list \<Rightarrow> error + event list" where
  "collect_events has_score [] = Inr []"
| "collect_events has_score (g # gs) =
     (case group_event has_score g of
        Inl e \<Rightarrow> Inl e
      | Inr ev \<Rightarrow>
          (case collect_events has_score gs of
             Inl e \<Rightarrow> Inl e
           | Inr events \<Rightarrow> Inr (case ev of None \<Rightarrow> events | Some e \<Rightarrow> e # events)))"

text \<open>
  \<^verbatim>\<open>get_anomaly_events(df, threshold=2.0)\<close>. The frame built from an empty list of
  events has no column, and sorting it by \<^verbatim>\<open>'start_time'\<close> raises \<^verbatim>\<open>KeyError\<close>.
\<close>

definition get_anomaly_events :: "dataset \<Rightarrow> real \<Rightarrow> error + event list" where
  "get_anomaly_events df threshold =
     (if df_empty df then Inr []
      else
        case collect_events (''anomaly_score'' \<in> set (columns df)) (state_groups (rows df)) of
          Inl e \<Rightarrow> Inl e
        | Inr events \<Rightarrow>
            if events = [] then Inl KeyError else Inr (sort_values_desc start_time events))"

section \<open>Root-cause analyzer\<close>

text \<open>A row of the ranking (\<^verbatim>\<open>sensor\<close>, \<^verbatim>\<open>deviation_score\<close>, \<^verbatim>\<open>event_mean\<close>,
  \<^verbatim>\<open>baseline_mean\<close>); \<open>None\<close> is \<^verbatim>\<open>NaN\<close>.\<close>

record contribution =
  rc_sensor :: string
  deviation_score :: "real option"
  event_mean :: "real option"
  baseline_mean :: "real option"

text \<open>\<^verbatim>\<open>abs(mu_event - mu_baseline) / sigma_baseline\<close>: \<^verbatim>\<open>NaN\<close> when an operand is.
  The caller has excluded \<open>sigma_baseline = 0\<close>.\<close>

definition nan_deviation :: "real option \<Rightarrow> real option \<Rightarrow> real option \<Rightarrow> real option" where
  "nan_deviation mu_event mu_baseline sigma_baseline =
     (case (mu_event, mu_baseline, sigma_baseline) of
        (Some e, Some b, Some s) \<Rightarrow> Some (\<bar>e - b\<bar> / s)
      | _ \<Rightarrow> None)"

text \<open>The body of the \<^verbatim>\<open>try\<close>: \<open>Inl\<close> when a reduction raises, \<open>Inr None\<close> at the
  \<^verbatim>\<open>continue\<close> for a zero deviation of the baseline.\<close>

definition sensor_contribution ::
  "(real list \<Rightarrow> real) \<Rightarrow> (real list \<Rightarrow> real) \<Rightarrow> row list \<Rightarrow> row list \<Rightarrow> string
     \<Rightarrow> error + contribution option" where
  "sensor_contribution fmean fstd baseline_df event_window_df sensor =
     (case col_mean fmean (col baseline_df sensor) of
        Inl e \<Rightarrow> Inl e
      | Inr mu_baseline \<Rightarrow>
          (case col_std fstd (col baseline_df sensor) of
             Inl e \<Rightarrow> Inl e
           | Inr sigma_baseline \<Rightarrow>
               if sigma_baseline = Some 0 then Inr None
               else
                 (case col_mean fmean (col event_window_df sensor) of
                    Inl e \<Rightarrow> Inl e
                  | Inr mu_event \<Rightarrow>
                      Inr (Some \<lparr>rc_sensor = sensor,
                                 deviation_score = nan_deviation mu_event mu_baseline sigma_baseline,
                                 event_mean = mu_event,
                                 baseline_mean = mu_baseline\<rparr>))))"

text \<open>The loop over the sensors: \<^verbatim>\<open>except: continue\<close> drops a sensor whose body raised.\<close>

fun contributions_of ::
  "(real list \<Rightarrow> real) \<Rightarrow> (real list \<Rightarrow> real) \<Rightarrow> row list \<Rightarrow> row list \<Rightarrow> string list
     \<Rightarrow> contribution list" where
  "contributions_of fmean fstd baseline_df event_window_df [] = []"
| "contributions_of fmean fstd baseline_df event_window_df (sensor # rest) =
     (case sensor_contribution fmean fstd baseline_df event_window_df sensor of
        Inr (Some c) \<Rightarrow> c # contributions_of fmean fstd baseline_df event_window_df rest
      | _ \<Rightarrow> contributions_of fmean fstd baseline_df event_window_df rest)"

text \<open>\<^verbatim>\<open>sort_values(key, ascending=False)\<close> on a key that may be missing: the rows with a
  key in descending order, then the rows without one in frame order.\<close>

definition sort_values_desc_na :: "('a \<Rightarrow> real option) \<Rightarrow> 'a list \<Rightarrow> 'a list" where
  "sort_values_desc_na key xs =
     sort_values_desc (\<lambda>x. the (key x)) (filter (\<lambda>x. key x \<noteq> None) xs)
       @ filter (\<lambda>x. key x = None) xs"

text \<open>\<^verbatim>\<open>df.head(n)\<close>: the first \<open>n\<close> rows, all rows but the last \<open>-n\<close> for a negative \<open>n\<close>.\<close>

definition head :: "int \<Rightarrow> 'a list \<Rightarrow> 'a list" where
  "head n xs = (if n \<ge> 0 then take (nat n) xs else take (length xs - nat (- n)) xs)"

text \<open>
  \<^verbatim>\<open>analyze_root_cause(df, event_row, top_n=3)\<close>. As in the event extractor, the frame
  built from an empty list of contributions has no column to sort by.
\<close>

definition analyze_root_cause ::
  "(real list \<Rightarrow> real) \<Rightarrow> (real list \<Rightarrow> real) \<Rightarrow> dataset \<Rightarrow> event \<Rightarrow> int
     \<Rightarrow> error + contribution list" where
  "analyze_root_cause fmean fstd df event_row top_n =
     (if df_empty df then Inr []
      else
        let baseline_df = filter (\<lambda>r. machine_status r = ''NORMAL'') (rows df) in
        if baseline_df = [] then Inr []
        else
          let event_start = start_time event_row;
              event_end = end_time event_row;
              event_window_df =
                filter (\<lambda>r. timestamp r \<ge> event_start \<and> timestamp r \<le> event_end) (rows df)
          in
          if event_window_df = [] then Inr []
          else
            let contributions =
                  contributions_of fmean fstd baseline_df event_window_df (sensor_cols df) in
            if contributions = [] then Inl KeyError
            else Inr (head top_n (sort_values_desc_na deviation_score contributions)))"

text \<open>A sensor that reaches the ranking: its baseline and window columns hold no text and
  the deviation of its baseline is not 0.\<close>

definition scored :: "(real list \<Rightarrow> real) \<Rightarrow> row list \<Rightarrow> row list \<Rightarrow> string \<Rightarrow> bool" where
  "scored fstd baseline_df event_window_df s \<longleftrightarrow>
     \<not> list_ex is_text (col baseline_df s)
     \<and> series_std fstd (numbers (col baseline_df s)) \<noteq> Some 0
     \<and> \<not> list_ex is_text (col event_window_df s)"

text \<open>The ranking row of a sensor, in the words of the specification: the distance of the
  window's mean from the baseline's mean, in baseline deviations.\<close>

definition score_row ::
  "(real list \<Rightarrow> real) \<Rightarrow> (real list \<Rightarrow> real) \<Rightarrow> row list \<Rightarrow> row list \<Rightarrow> string
     \<Rightarrow> contribution" where
  "score_row fmean fstd baseline_df event_window_df s =
     \<lparr>rc_sensor = s,
      deviation_score = nan_deviation (series_mean fmean (numbers (col event_window_df s)))
         (series_mean fmean (numbers (col baseline_df s)))
         (series_std fstd (numbers (col baseline_df s))),
      event_mean = series_mean fmean (numbers (col event_window_df s)),
      baseline_mean = series_mean fmean (numbers (col baseline_df s))\<rparr>"

text \<open>Descending order with the missing keys last.\<close>

fun na_ge :: "real option \<Rightarrow> real option \<Rightarrow> bool" where
  "na_ge (Some x) (Some y) = (x \<ge> y)"
| "na_ge _ None = True"
| "na_ge None (Some y) = False"

text \<open>Example frames with three sensor columns, and an event window.\<close>

definition rc_row :: "real \<Rightarrow> string \<Rightarrow> cell \<Rightarrow> cell \<Rightarrow> cell \<Rightarrow> row" where
  "rc_row t s a b c = \<lparr>timestamp = t, machine_status = s, anomaly_score = None,
     sensors = (\<lambda>_. NaN)(''sensor_00'' := a, ''sensor_01'' := b, ''sensor_02'' := c)\<rparr>"

definition rc_frame :: "row list \<Rightarrow> dataset" where
  "rc_frame rs = \<lparr>columns = [''timestamp'', ''sensor_00'', ''sensor_01'', ''sensor_02'',
     ''machine_status''], rows = rs\<rparr>"

definition event_at :: "real \<Rightarrow> real \<Rightarrow> event" where
  "event_at a b = \<lparr>start_time = a, end_time = b, duration_mins = (b - a) / 60,
     status = ''BROKEN'', max_anomaly_score = None\<rparr>"

section \<open>Data quality monitor\<close>

text \<open>A row of the health report (\<^verbatim>\<open>sensor\<close>, \<^verbatim>\<open>status\<close>, \<^verbatim>\<open>details\<close>,
  \<^verbatim>\<open>current_value\<close>).\<close>

record health =
  hr_sensor :: string
  hr_status :: string
  hr_details :: string
  hr_current_value :: cell

text \<open>\<^verbatim>\<open>df.tail(n)\<close>: no row for \<open>n = 0\<close>, the last \<open>n\<close> rows for a positive \<open>n\<close>, all
  rows but the first \<open>-n\<close> for a negative one.\<close>

definition tail :: "int \<Rightarrow> 'a list \<Rightarrow> 'a list" where
  "tail n xs =
     (if n = 0 then [] else if n > 0 then drop (length xs - nat n) xs else drop (nat (- n)) xs)"

text \<open>\<^verbatim>\<open>series.isna().mean()\<close>: the share of missing cells, \<^verbatim>\<open>NaN\<close> on no cell.\<close>

definition isna_mean :: "cell list \<Rightarrow> real option" where
  "isna_mean cs =
     (if cs = [] then None
      else Some (real (length (filter (\<lambda>c. c = NaN) cs)) / real (length cs)))"

text \<open>The body of the loop over the sensors. A comparison with \<^verbatim>\<open>NaN\<close> is false;
  \<^verbatim>\<open>iloc[-1]\<close> raises on a window without rows.\<close>

definition sensor_health :: "(real list \<Rightarrow> real) \<Rightarrow> row list \<Rightarrow> string \<Rightarrow> error + health" where
  "sensor_health fstd recent_df sensor =
     (case col_std fstd (col recent_df sensor) of
        Inl e \<Rightarrow> Inl e
      | Inr sd \<Rightarrow>
          let (st, details) =
            (if sd = Some 0 then (''CRITICAL'', ''Flatline (Zero Variance)'')
             else if (case isna_mean (col recent_df sensor) of
                        None \<Rightarrow> False | Some f \<Rightarrow> f > 1 / 10)
               then (''WARNING'', ''High Missing Data Rate'')
             else (''HEALTHY'', ''Normal operation''))
          in if recent_df = [] then Inl IndexError
             else Inr \<lparr>hr_sensor = sensor, hr_status = st, hr_details = details,
                       hr_current_value = last (col recent_df sensor)\<rparr>)"

fun health_report ::
  "(real list \<Rightarrow> real) \<Rightarrow> row list \<Rightarrow> string list \<Rightarrow> error + health list" where
  "health_report fstd recent_df [] = Inr []"
| "health_report fstd recent_df (sensor # rest) =
     (case sensor_health fstd recent_df sensor of
        Inl e \<Rightarrow> Inl e
      | Inr h \<Rightarrow>
          (case health_report fstd recent_df rest of
             Inl e \<Rightarrow> Inl e
           | Inr hs \<Rightarrow> Inr (h # hs)))"

text \<open>\<^verbatim>\<open>check_sensor_health(df, lookback_window=500)\<close>\<close>

definition check_sensor_health ::
  "(real list \<Rightarrow> real) \<Rightarrow> dataset \<Rightarrow> int \<Rightarrow> error + health list" where
  "check_sensor_health fstd df lookback_window =
     (if df_empty df then Inr []
      else
        let recent_df = (if int (length (rows df)) > lookback_window
                         then tail lookback_window (rows df) else rows df)
        in health_report fstd recent_df (sensor_cols df))"


text \<open>The frame of the repository's test: a constant sensor and a rising one.\<close>

definition sensor_row :: "real \<Rightarrow> real \<Rightarrow> row" where
  "sensor_row a b = \<lparr>timestamp = 0, machine_status = ''NORMAL'', anomaly_score = None,
     sensors = (\<lambda>_. NaN)(''sensor_00'' := Num a, ''sensor_01'' := Num b)\<rparr>"

definition flatline_frame :: dataset where
  "flatline_frame = \<lparr>columns = [''sensor_00'', ''sensor_01''],
     rows = [sensor_row 10 1, sensor_row 10 2, sensor_row 10 3, sensor_row 10 4, sensor_row 10 5]\<rparr>"

section \<open>Feature scaler and reducer\<close>

text \<open>
  \<^verbatim>\<open>ReliabilityPipeline.preprocess\<close> of \<^verbatim>\<open>etl_pipeline.py\<close> works column by column on the
  raw frame, which is modelled as the list of its named columns, in frame order.
\<close>

type_synonym frame = "(string \<times> cell list) list"

text \<open>\<^verbatim>\<open>ffill\<close>: a missing cell takes the last value seen before it, if there is one.\<close>

fun ffill_from :: "cell \<Rightarrow> cell list \<Rightarrow> cell list" where
  "ffill_from prev [] = []"
| "ffill_from prev (c # cs) = (if c = NaN then prev # ffill_from prev cs else c # ffill_from c cs)"

definition ffill :: "cell list \<Rightarrow> cell list" where
  "ffill cs = ffill_from NaN cs"

text \<open>\<^verbatim>\<open>bfill\<close>: a missing cell takes the next value after it, if there is one.\<close>

fun bfill :: "cell list \<Rightarrow> cell list" where
  "bfill [] = []"
| "bfill (c # cs) =
     (if c = NaN then (case bfill cs of [] \<Rightarrow> NaN | d # _ \<Rightarrow> d) # bfill cs else c # bfill cs)"

text \<open>\<^verbatim>\<open>df.ffill().bfill()\<close>\<close>

definition fill_gaps :: "frame \<Rightarrow> frame" where
  "fill_gaps df = map (\<lambda>(name, cs). (name, bfill (ffill cs))) df"

text \<open>\<^verbatim>\<open>df.dropna(axis=1, how='all')\<close>\<close>

definition dropna_all :: "frame \<Rightarrow> frame" where
  "dropna_all df = filter (\<lambda>(name, cs). \<not> list_all (\<lambda>c. c = NaN) cs) df"

text \<open>
  The library calls. \<^verbatim>\<open>StandardScaler.fit_transform\<close> refuses a frame without columns or
  rows and a column with text; it centres each column on its mean and divides it by its
  population deviation, or by 1 when that is 0; missing cells stay missing.
  \<^verbatim>\<open>PCA(n_components=2).fit_transform\<close> refuses missing cells and a matrix with fewer than
  two rows or columns. The projection it fits is the parameter \<open>pca\<close>, from the scaled
  columns to the two components of each row.
\<close>

definition scale_column :: "cell list \<Rightarrow> real option list" where
  "scale_column cs =
     (let xs = numbers cs;
          mean = sum_list xs / real (length xs);
          var = sq_dev xs / real (length xs);
          scale = (if var = 0 then 1 else sqrt var)
      in map (\<lambda>c. case c of Num x \<Rightarrow> Some ((x - mean) / scale) | _ \<Rightarrow> None) cs)"

definition scaler_fit_transform :: "cell list list \<Rightarrow> error + real option list list" where
  "scaler_fit_transform cols =
     (if cols = [] \<or> hd cols = [] \<or> list_ex (list_ex is_text) cols then Inl ValueError
      else Inr (map scale_column cols))"

definition pca_fit_transform ::
  "(real list list \<Rightarrow> (real \<times> real) list) \<Rightarrow> real option list list
     \<Rightarrow> error + (real \<times> real) list" where
  "pca_fit_transform pca x =
     (if x = [] \<or> hd x = [] \<or> list_ex (list_ex (\<lambda>v. v = None)) x then Inl ValueError
      else if min (length (hd x)) (length x) < 2 then Inl ValueError
      else Inr (pca (map (map the) x)))"

text \<open>\<^verbatim>\<open>df[name] = values\<close>: replaces the column of that name, or appends it.\<close>

fun set_col :: "string \<Rightarrow> cell list \<Rightarrow> frame \<Rightarrow> frame" where
  "set_col name vs [] = [(name, vs)]"
| "set_col name vs ((n, cs) # df) =
     (if n = name then (n, vs) # df else (n, cs) # set_col name vs df)"

text \<open>\<^verbatim>\<open>preprocess(self, df)\<close>; \<open>sensor_frame\<close> is \<^verbatim>\<open>df[sensor_cols]\<close>.\<close>

definition preprocess :: "(real list list \<Rightarrow> (real \<times> real) list) \<Rightarrow> frame \<Rightarrow> error + frame" where
  "preprocess pca df0 =
     (let df = dropna_all (fill_gaps df0);
          sensor_frame = filter (\<lambda>(name, cs). sublist ''sensor'' name) df
      in case scaler_fit_transform (map snd sensor_frame) of
           Inl e \<Rightarrow> Inl e
         | Inr x_scaled \<Rightarrow>
             (case pca_fit_transform pca x_scaled of
                Inl e \<Rightarrow> Inl e
              | Inr principal_components \<Rightarrow>
                  Inr (set_col ''anomaly_score''
                         (map (\<lambda>(p1, p2). Num (sqrt (p1\<^sup>2 + p2\<^sup>2))) principal_components)
                      (set_col ''PCA_2'' (map (\<lambda>p. Num (snd p)) principal_components)
                      (set_col ''PCA_1'' (map (\<lambda>p. Num (fst p)) principal_components) df)))))"

text \<open>The three columns that preprocessing adds to the cleaned frame.\<close>

definition add_health_columns :: "(real \<times> real) list \<Rightarrow> frame \<Rightarrow> frame" where
  "add_health_columns principal_components df =
     set_col ''anomaly_score''
       (map (\<lambda>(p1, p2). Num (sqrt (p1\<^sup>2 + p2\<^sup>2))) principal_components)
       (set_col ''PCA_2'' (map (\<lambda>p. Num (snd p)) principal_components)
          (set_col ''PCA_1'' (map (\<lambda>p. Num (fst p)) principal_components) df))"

text \<open>
  Gap filling in the words of the specification, cell by cell: forward fill first (the
  last value at or before the cell), backward fill second (else the first value after it).
\<close>

definition last_valid :: "cell list \<Rightarrow> cell option" where
  "last_valid cs =
     (case filter (\<lambda>c. c \<noteq> NaN) cs of [] \<Rightarrow> None | v # vs \<Rightarrow> Some (last (v # vs)))"

definition first_valid :: "cell list \<Rightarrow> cell option" where
  "first_valid cs = (case filter (\<lambda>c. c \<noteq> NaN) cs of [] \<Rightarrow> None | v # vs \<Rightarrow> Some v)"

definition gap_fill_spec :: "cell list \<Rightarrow> nat \<Rightarrow> cell" where
  "gap_fill_spec cs i =
     (case last_valid (take (Suc i) cs) of
        Some v \<Rightarrow> v
      | None \<Rightarrow> (case first_valid (drop (Suc i) cs) of Some v \<Rightarrow> v | None \<Rightarrow> NaN))"

text \<open>
  A raw frame with a constant sensor, a sensor with a gap and a dead sensor; a frame with a
  constant sensor and no gap; a frame without a live sensor column; a stand-in for the
  fitted projection.
\<close>

definition flat_frame :: frame where
  "flat_frame = [(''timestamp'', [Num 0, Num 60, Num 120]),
     (''sensor_00'', [Num 5, Num 5, Num 5]),
     (''sensor_01'', [Num 1, NaN, Num 3]),
     (''sensor_15'', [NaN, NaN, NaN]),
     (''machine_status'', [Str ''NORMAL'', Str ''BROKEN'', Str ''NORMAL''])]"

definition stuck_frame :: frame where
  "stuck_frame = [(''timestamp'', [Num 0, Num 60, Num 120]),
     (''sensor_00'', [Num 5, Num 5, Num 5]),
     (''sensor_01'', [Num 2, Num 4, Num 6]),
     (''machine_status'', [Str ''NORMAL'', Str ''BROKEN'', Str ''NORMAL''])]"

definition meta_frame :: frame where
  "meta_frame = [(''timestamp'', [Num 0, Num 60]),
     (''sensor_15'', [NaN, NaN]),
     (''machine_status'', [Str ''NORMAL'', Str ''BROKEN''])]"

definition origin_projection :: "real list list \<Rightarrow> (real \<times> real) list" where
  "origin_projection x = map (\<lambda>_. (0, 0)) (hd x)"

text \<open>Example datasets: rows one minute apart, no sensor columns.\<close>

definition mk_row :: "real \<Rightarrow> string \<Rightarrow> real \<Rightarrow> row" where
  "mk_row t s a = \<lparr>timestamp = t, machine_status = s, anomaly_score = Some a, sensors = (\<lambda>_. NaN)\<rparr>"

definition status_frame :: "row list \<Rightarrow> dataset" where
  "status_frame rs = \<lparr>columns = [''timestamp'', ''machine_status'', ''anomaly_score''], rows = rs\<rparr>"

section \<open>Reliability metrics\<close>

lemma is_failure_simps:
  "is_failure ''BROKEN''" "is_failure ''RECOVERING''" "\<not> is_failure ''NORMAL''"
  by (simp_all add: is_failure_def)

text \<open>
  C2. With at least one failure event in the list, MTBF (hours) is the supplied total
  duration minus the downtime (the failures' minutes over 60), divided by the number of
  failures, and MTTR (minutes) is the downtime per failure times 60; the total duration is
  not compared with the downtime. One BROKEN event of 60 minutes in 10 hours gives
  MTBF 9 and MTTR 60.
\<close>

theorem reliability_metrics_formula:
  assumes "\<exists>e \<in> set events_df. is_failure (status e)"
  shows "calculate_reliability_metrics events_df total_duration_hours =
     \<lparr>MTBF = Finite ((total_duration_hours
                - sum_list (map duration_mins (filter (\<lambda>e. is_failure (status e)) events_df)) / 60)
                / real (length (filter (\<lambda>e. is_failure (status e)) events_df))),
      MTTR = ((sum_list (map duration_mins (filter (\<lambda>e. is_failure (status e)) events_df)) / 60)
                / real (length (filter (\<lambda>e. is_failure (status e)) events_df))) * 60\<rparr>
     \<and> calculate_reliability_metrics [broken_60] 10 = \<lparr>MTBF = Finite 9, MTTR = 60\<rparr>"
proof -
  from assms have ne: "filter (\<lambda>e. is_failure (status e)) events_df \<noteq> []"
    by (auto simp: filter_empty_conv)
  then have "events_df \<noteq> []" by auto
  with ne have "calculate_reliability_metrics events_df total_duration_hours =
     \<lparr>MTBF = Finite ((total_duration_hours
                - sum_list (map duration_mins (filter (\<lambda>e. is_failure (status e)) events_df)) / 60)
                / real (length (filter (\<lambda>e. is_failure (status e)) events_df))),
      MTTR = ((sum_list (map duration_mins (filter (\<lambda>e. is_failure (status e)) events_df)) / 60)
                / real (length (filter (\<lambda>e. is_failure (status e)) events_df))) * 60\<rparr>"
    by (simp add: calculate_reliability_metrics_def Let_def)
  moreover have "calculate_reliability_metrics [broken_60] 10 = \<lparr>MTBF = Finite 9, MTTR = 60\<rparr>"
    by (simp add: calculate_reliability_metrics_def broken_60_def is_failure_def Let_def)
  ultimately show ?thesis by simp
qed

theorem reliability_metrics_formula_witness:
  "calculate_reliability_metrics [broken_60, normal_60] (1 / 2)
     = \<lparr>MTBF = Finite (- (1 / 2)), MTTR = 60\<rparr>"
  using reliability_metrics_formula [of "[broken_60, normal_60]" "1 / 2"]
  by (simp add: broken_60_def normal_60_def is_failure_def)

text \<open>
  C3. When no event of the list (the empty list included) has a failure status, the result
  is the sentinel: MTBF is infinite and MTTR is 0. The function has no raising branch.
\<close>

theorem reliability_metrics_no_failures:
  assumes "filter (\<lambda>e. is_failure (status e)) events_df = []"
  shows "calculate_reliability_metrics events_df total_duration_hours = \<lparr>MTBF = Infinity, MTTR = 0\<rparr>"
  using assms by (simp add: calculate_reliability_metrics_def Let_def)

theorem reliability_metrics_no_failures_witness:
  "calculate_reliability_metrics [] 10 = \<lparr>MTBF = Infinity, MTTR = 0\<rparr>
   \<and> calculate_reliability_metrics [normal_60] 10 = \<lparr>MTBF = Infinity, MTTR = 0\<rparr>"
  using reliability_metrics_no_failures [of "[]" 10]
    reliability_metrics_no_failures [of "[normal_60]" 10]
  by (simp add: normal_60_def is_failure_def)

section \<open>Financial risk\<close>

lemma sum_list_double: "sum_list (map (\<lambda>e. 2 * duration_mins e) es) = 2 * sum_list (map duration_mins es)"
  by (induction es) simp_all

text \<open>
  C8. The estimated risk is the sum of the minutes of all events of the list, whatever
  their status, times the cost rate; it is 0 for the empty list; doubling every event's
  minutes doubles the risk.
\<close>

theorem financial_risk_linear:
  "calculate_financial_risk events_df cost_per_minute
     = sum_list (map duration_mins events_df) * cost_per_minute
   \<and> calculate_financial_risk [] cost_per_minute = 0
   \<and> calculate_financial_risk (map (\<lambda>e. e\<lparr>duration_mins := 2 * duration_mins e\<rparr>) events_df) cost_per_minute
     = 2 * calculate_financial_risk events_df cost_per_minute"
  by (simp add: calculate_financial_risk_def Let_def comp_def sum_list_double)

theorem financial_risk_linear_witness:
  "calculate_financial_risk [broken_60, normal_60] 500 = 60000"
  using financial_risk_linear [of "[broken_60, normal_60]" 500]
  by (simp add: broken_60_def normal_60_def)

section \<open>Sorting\<close>

lemma sorted_wrt_rev_sort_key:
  "sorted_wrt (\<lambda>a c. key a \<ge> key c) (rev (sort_key key xs))"
proof -
  have "sorted (map key (sort_key key xs))" by simp
  then have "sorted_wrt (\<lambda>a c. key a \<le> key c) (sort_key key xs)"
    by (simp add: sorted_map)
  then show ?thesis by (simp add: sorted_wrt_rev)
qed

lemma sorted_wrt_sort_values_desc:
  "sorted_wrt (\<lambda>a c. key a \<ge> key c) (sort_values_desc key xs)"
  unfolding sort_values_desc_def by (rule sorted_wrt_rev_sort_key)

lemma mset_sort_values_desc [simp]: "mset (sort_values_desc key xs) = mset xs"
  by (simp add: sort_values_desc_def)

lemma set_sort_values_desc [simp]: "set (sort_values_desc key xs) = set xs"
  by (simp add: sort_values_desc_def)

section \<open>Event extraction\<close>

text \<open>The pandas grouping by the running count of status changes gives the runs.\<close>

lemma groupby_key_rows: "groupby ks xs = map (key_rows ks xs) (sort (remdups ks))"
  by (simp add: groupby_def)

lemma key_rows_Cons: "key_rows (i # ks) (x # xs) k = (if i = k then x # key_rows ks xs k else key_rows ks xs k)"
  by (simp add: key_rows_def)

lemma key_rows_absent: "k \<notin> set ks \<Longrightarrow> key_rows ks xs k = []"
  by (auto simp: key_rows_def filter_empty_conv dest: set_zip_leftD)

lemma groupby_new_key:
  assumes "\<forall>k \<in> set ks. i < k"
  shows "groupby (i # ks) (x # xs) = [x] # groupby ks xs"
proof -
  from assms have notin: "i \<notin> set ks" by auto
  from assms have "\<forall>k \<in> set (sort (remdups ks)). i \<le> k" by auto
  then have "insort i (sort (remdups ks)) = i # sort (remdups ks)"
    by (intro insort_is_Cons) simp
  with notin have keys: "sort (remdups (i # ks)) = i # sort (remdups ks)" by simp
  have "\<And>k. k \<in> set (sort (remdups ks)) \<Longrightarrow> key_rows (i # ks) (x # xs) k = key_rows ks xs k"
    using notin by (auto simp: key_rows_Cons)
  then have rest: "map (key_rows (i # ks) (x # xs)) (sort (remdups ks)) = map (key_rows ks xs) (sort (remdups ks))"
    by (intro map_cong) auto
  have first: "key_rows (i # ks) (x # xs) i = [x]"
    using notin by (simp add: key_rows_Cons key_rows_absent)
  show ?thesis
    unfolding groupby_key_rows keys using rest first by simp
qed

lemma sorted_min_hd:
  "sorted xs \<Longrightarrow> (i::nat) \<in> set xs \<Longrightarrow> \<forall>x \<in> set xs. i \<le> x \<Longrightarrow> \<exists>ys. xs = i # ys"
  by (cases xs) force+

lemma groupby_same_key:
  assumes "i \<in> set ks" "\<forall>k \<in> set ks. i \<le> k"
  shows "\<exists>g gs. groupby ks xs = g # gs \<and> groupby (i # ks) (x # xs) = (x # g) # gs"
proof -
  have "\<exists>ys. sort (remdups ks) = i # ys"
    using assms by (intro sorted_min_hd) auto
  then obtain ys where ys: "sort (remdups ks) = i # ys" by blast
  have "distinct (sort (remdups ks))" by simp
  with ys have notin: "i \<notin> set ys" by simp
  from assms(1) have keys: "sort (remdups (i # ks)) = i # ys" by (simp add: ys)
  have "\<And>k. k \<in> set ys \<Longrightarrow> key_rows (i # ks) (x # xs) k = key_rows ks xs k"
    using notin by (auto simp: key_rows_Cons)
  then have rest: "map (key_rows (i # ks) (x # xs)) ys = map (key_rows ks xs) ys"
    by (intro map_cong) auto
  have first: "key_rows (i # ks) (x # xs) i = x # key_rows ks xs i"
    by (simp add: key_rows_Cons)
  show ?thesis
    unfolding groupby_key_rows keys ys using rest first by simp
qed

lemma cumsum_ge: "k \<in> set (cumsum acc bs) \<Longrightarrow> acc \<le> k"
  by (induction bs arbitrary: acc) force+

lemma status_runs_hd:
  "rs \<noteq> [] \<Longrightarrow> \<exists>g gs. status_runs rs = (hd rs # g) # gs"
  by (induction rs) (auto split: list.splits)

lemma cumsum_change_Cons:
  "cumsum acc (status_change prev (map machine_status (r # rs)))
     = (acc + of_bool (prev \<noteq> Some (machine_status r)))
       # cumsum (acc + of_bool (prev \<noteq> Some (machine_status r)))
           (status_change (Some (machine_status r)) (map machine_status rs))"
  by simp

lemma state_groups_runs_aux:
  "groupby (cumsum acc (status_change prev (map machine_status rs))) rs = status_runs rs"
proof (induction rs arbitrary: acc prev)
  case Nil
  show ?case by (simp add: groupby_def key_rows_def)
next
  case (Cons r rs)
  define i where "i = acc + of_bool (prev \<noteq> Some (machine_status r))"
  define ks where "ks = cumsum i (status_change (Some (machine_status r)) (map machine_status rs))"
  have keys: "cumsum acc (status_change prev (map machine_status (r # rs))) = i # ks"
    unfolding i_def ks_def by (rule cumsum_change_Cons)
  have IH: "groupby ks rs = status_runs rs" unfolding ks_def by (rule Cons.IH)
  have ge: "\<forall>k \<in> set ks. i \<le> k" unfolding ks_def using cumsum_ge by blast
  show ?case
  proof (cases rs)
    case Nil
    then show ?thesis by (simp add: groupby_def key_rows_def)
  next
    case (Cons r' rs')
    then obtain g gs where runs: "status_runs rs = (r' # g) # gs"
      using status_runs_hd [of rs] by auto
    define j where "j = i + of_bool (Some (machine_status r) \<noteq> Some (machine_status r'))"
    have ks': "ks = j # cumsum j (status_change (Some (machine_status r')) (map machine_status rs'))"
      unfolding ks_def j_def Cons by (rule cumsum_change_Cons)
    show ?thesis
    proof (cases "machine_status r = machine_status r'")
      case True
      then have "j = i" by (simp add: j_def)
      with ks' have "i \<in> set ks" by simp
      from groupby_same_key [OF this ge, of rs r] IH runs True
      show ?thesis unfolding keys by auto
    next
      case False
      then have j: "j = Suc i" by (simp add: j_def)
      have "\<forall>k \<in> set ks. j \<le> k"
        using cumsum_ge ks' by (metis order_refl set_ConsD)
      with j have "\<forall>k \<in> set ks. i < k" by auto
      from groupby_new_key [OF this, of r rs] IH runs False
      show ?thesis unfolding keys by auto
    qed
  qed
qed

lemma state_groups_runs: "state_groups rs = status_runs rs"
  unfolding state_groups_def by (rule state_groups_runs_aux)

lemma concat_status_runs: "concat (status_runs rs) = rs"
  by (induction rs) (auto split: list.splits)

lemma status_runs_constant:
  "g \<in> set (status_runs rs) \<Longrightarrow> g \<noteq> [] \<and> (\<forall>r \<in> set g. machine_status r = machine_status (hd g))"
  by (induction rs arbitrary: g) (auto split: list.splits if_splits)

lemma status_runs_maximal:
  "distinct_adj (map (\<lambda>g. machine_status (hd g)) (status_runs rs))"
  by (induction rs) (auto split: list.splits simp: distinct_adj_Cons)


lemma sorted_Min_hd:
  fixes xs :: "real list"
  assumes "xs \<noteq> []" "sorted xs"
  shows "Min (set xs) = hd xs"
proof (rule Min_eqI)
  show "finite (set xs)" by simp
  show "hd xs \<in> set xs" using assms(1) by simp
  fix y assume "y \<in> set xs"
  with assms show "hd xs \<le> y" by (cases xs) auto
qed

lemma sorted_Max_last:
  fixes xs :: "real list"
  assumes "xs \<noteq> []" "sorted xs"
  shows "Max (set xs) = last xs"
proof (rule Max_eqI)
  show "finite (set xs)" by simp
  show "last xs \<in> set xs" using assms(1) by simp
  fix y assume "y \<in> set xs"
  then obtain i where i: "i < length xs" "xs ! i = y" by (auto simp: in_set_conv_nth)
  with assms have "xs ! i \<le> xs ! (length xs - 1)"
    by (intro sorted_nth_mono) auto
  with assms(1) i show "y \<le> last xs" by (simp add: last_conv_nth)
qed

lemma group_event_sorted:
  assumes "g \<noteq> []" "sorted (map timestamp g)"
  shows "group_event h g =
     Inr (if is_failure (machine_status (hd g)) then Some (run_event h g) else None)"
proof -
  from assms have "Min (set (map timestamp g)) = timestamp (hd g)"
    using sorted_Min_hd [of "map timestamp g"] by (simp add: hd_map)
  moreover from assms have "Max (set (map timestamp g)) = timestamp (last g)"
    using sorted_Max_last [of "map timestamp g"] by (simp add: last_map)
  ultimately show ?thesis using assms(1)
    by (cases g) (simp_all add: group_event_def run_event_def)
qed

lemma collect_events_sorted:
  assumes "\<forall>g \<in> set gs. g \<noteq> [] \<and> sorted (map timestamp g)"
  shows "collect_events h gs =
     Inr (map (run_event h) (filter (\<lambda>g. is_failure (machine_status (hd g))) gs))"
  using assms by (induction gs) (simp_all add: group_event_sorted)

lemma sorted_concat_part:
  "sorted (map f (concat gs)) \<Longrightarrow> g \<in> set gs \<Longrightarrow> sorted (map f g)"
  by (induction gs) (auto simp: sorted_append)

lemma length_status_change [simp]: "length (status_change p ss) = length ss"
  by (induction ss arbitrary: p) auto

lemma length_cumsum [simp]: "length (cumsum a bs) = length bs"
  by (induction bs arbitrary: a) auto

text \<open>Every group of \<open>groupby\<close> has a row, and its rows are rows of the frame.\<close>

lemma groupby_nonempty:
  assumes "length ks = length xs" "g \<in> set (groupby ks xs)"
  shows "g \<noteq> [] \<and> set g \<subseteq> set xs"
proof -
  from assms(2) obtain k where k: "k \<in> set ks"
    and g: "g = map snd (filter (\<lambda>p. fst p = k) (zip ks xs))"
    by (auto simp: groupby_def key_rows_def)
  from k obtain i where i: "i < length ks" "ks ! i = k"
    by (auto simp: in_set_conv_nth)
  with assms(1) have "(k, xs ! i) \<in> set (zip ks xs)"
    by (auto simp: set_zip)
  then have "xs ! i \<in> set g" unfolding g by force
  moreover have "set g \<subseteq> set xs" unfolding g by (auto dest: set_zip_rightD)
  ultimately show ?thesis by auto
qed

lemma state_groups_nonempty:
  "g \<in> set (state_groups rs) \<Longrightarrow> g \<noteq> [] \<and> set g \<subseteq> set rs"
  unfolding state_groups_def by (rule groupby_nonempty) auto

lemma collect_events_no_failure:
  "\<forall>g \<in> set gs. g \<noteq> [] \<and> (\<forall>r \<in> set g. \<not> is_failure (machine_status r))
     \<Longrightarrow> collect_events h gs = Inr []"
  by (induction gs) (auto simp: group_event_def split: list.splits)

text \<open>
  C10. On a frame that is not empty and has no row with a failure status, no event is
  collected and sorting the column-less events frame raises \<open>KeyError\<close>; an empty frame
  gives the empty result.
\<close>

theorem get_anomaly_events_no_failure_raises:
  "(\<not> df_empty df \<and> (\<forall>r \<in> set (rows df). \<not> is_failure (machine_status r))
      \<longrightarrow> get_anomaly_events df threshold = Inl KeyError)
   \<and> (df_empty df \<longrightarrow> get_anomaly_events df threshold = Inr [])"
proof (intro conjI impI)
  assume a: "\<not> df_empty df \<and> (\<forall>r \<in> set (rows df). \<not> is_failure (machine_status r))"
  have "collect_events (''anomaly_score'' \<in> set (columns df)) (state_groups (rows df)) = Inr []"
    using a state_groups_nonempty by (intro collect_events_no_failure) blast
  with a show "get_anomaly_events df threshold = Inl KeyError"
    by (simp add: get_anomaly_events_def)
next
  assume "df_empty df"
  then show "get_anomaly_events df threshold = Inr []"
    by (simp add: get_anomaly_events_def)
qed

theorem get_anomaly_events_no_failure_raises_witness:
  "get_anomaly_events (status_frame [mk_row 0 ''NORMAL'' 1, mk_row 60 ''IDLE'' 2]) 2 = Inl KeyError
   \<and> get_anomaly_events (status_frame []) 2 = Inr []"
  using get_anomaly_events_no_failure_raises
      [of "status_frame [mk_row 0 ''NORMAL'' 1, mk_row 60 ''IDLE'' 2]" 2]
    get_anomaly_events_no_failure_raises [of "status_frame []" 2]
  by (simp add: status_frame_def mk_row_def df_empty_def is_failure_def)

text \<open>
  C1, at a frame of NORMAL rows only: the extractor raises \<open>KeyError\<close> where the claim has
  it return the (empty) list of events.
\<close>

theorem get_anomaly_events_all_normal:
  "get_anomaly_events (status_frame [mk_row 0 ''NORMAL'' 1, mk_row 60 ''NORMAL'' 1]) 2 = Inl KeyError"
  by (simp add: status_frame_def mk_row_def get_anomaly_events_def df_empty_def state_groups_def
      groupby_def key_rows_def group_event_def is_failure_def)

text \<open>The status sequence NORMAL, NORMAL, BROKEN, BROKEN, NORMAL, BROKEN gives two BROKEN
  events, the newer first.\<close>

lemma get_anomaly_events_example:
  "get_anomaly_events (status_frame [mk_row 0 ''NORMAL'' 1, mk_row 60 ''NORMAL'' 2,
       mk_row 120 ''BROKEN'' 5, mk_row 180 ''BROKEN'' 7, mk_row 240 ''NORMAL'' 1,
       mk_row 300 ''BROKEN'' 4]) 2
   = Inr [\<lparr>start_time = 300, end_time = 300, duration_mins = 0, status = ''BROKEN'',
            max_anomaly_score = Some 4\<rparr>,
          \<lparr>start_time = 120, end_time = 180, duration_mins = 1, status = ''BROKEN'',
            max_anomaly_score = Some 7\<rparr>]"
  by (simp add: status_frame_def mk_row_def get_anomaly_events_def df_empty_def state_groups_def
      groupby_def key_rows_def group_event_def is_failure_def nanmax_def sort_values_desc_def
      List.map_filter_simps)

text \<open>
  With time stamps in ascending order and at least one row of a failure status, the groups
  are the maximal runs of equal status (they concatenate to the rows, each has one status,
  neighbours differ), and the result holds one event per run of a failure status, from the
  run's first row to its last, newest first.
\<close>

lemma get_anomaly_events_runs:
  fixes df :: dataset
  defines "runs \<equiv> state_groups (rows df)"
  defines "found \<equiv> map (run_event (''anomaly_score'' \<in> set (columns df)))
       (filter (\<lambda>g. is_failure (machine_status (hd g))) runs)"
  assumes "\<not> df_empty df" "sorted (map timestamp (rows df))"
    and "\<exists>r \<in> set (rows df). is_failure (machine_status r)"
  shows "concat runs = rows df
    \<and> (\<forall>g \<in> set runs. g \<noteq> [] \<and> (\<forall>r \<in> set g. machine_status r = machine_status (hd g)))
    \<and> distinct_adj (map (\<lambda>g. machine_status (hd g)) runs)
    \<and> get_anomaly_events df threshold = Inr (sort_values_desc start_time found)
    \<and> mset (sort_values_desc start_time found) = mset found
    \<and> sorted_wrt (\<lambda>a b. start_time a \<ge> start_time b) (sort_values_desc start_time found)"
proof -
  have runs: "runs = status_runs (rows df)" by (simp add: runs_def state_groups_runs)
  have concat: "concat runs = rows df" by (simp add: runs concat_status_runs)
  have const: "\<forall>g \<in> set runs. g \<noteq> [] \<and> (\<forall>r \<in> set g. machine_status r = machine_status (hd g))"
    unfolding runs using status_runs_constant by blast
  have "\<forall>g \<in> set runs. g \<noteq> [] \<and> sorted (map timestamp g)"
    using const assms(4) sorted_concat_part [of timestamp runs] by (simp add: concat)
  then have coll: "collect_events (''anomaly_score'' \<in> set (columns df)) runs = Inr found"
    unfolding found_def by (rule collect_events_sorted)
  from assms(5) obtain r where r: "r \<in> set (rows df)" "is_failure (machine_status r)" by blast
  then have "r \<in> set (concat runs)" by (simp add: concat)
  then obtain g where g: "g \<in> set runs" "r \<in> set g" by auto
  with const r have "is_failure (machine_status (hd g))" by metis
  with g have "found \<noteq> []" by (auto simp: found_def filter_empty_conv)
  with coll assms(3) have run: "get_anomaly_events df threshold = Inr (sort_values_desc start_time found)"
    by (simp add: get_anomaly_events_def runs_def)
  have adj: "distinct_adj (map (\<lambda>g. machine_status (hd g)) runs)"
    unfolding runs by (rule status_runs_maximal)
  have perm: "mset (sort_values_desc start_time found) = mset found"
    by (rule mset_sort_values_desc)
  have desc: "sorted_wrt (\<lambda>a b. start_time a \<ge> start_time b) (sort_values_desc start_time found)"
    by (rule sorted_wrt_sort_values_desc)
  from concat const adj run perm desc show ?thesis by blast
qed

section \<open>Sensor health\<close>








text \<open>A look-back of 0 leaves no row for \<^verbatim>\<open>iloc[-1]\<close>.\<close>

lemma check_sensor_health_zero_window:
  "check_sensor_health fstd flatline_frame 0 = Inl IndexError"
  by (simp add: check_sensor_health_def flatline_frame_def df_empty_def sensor_cols_def
      sublist_code tail_def sensor_health_def col_std_def col_def series_std_def isna_mean_def)

section \<open>Root-cause ranking\<close>

lemmas root_cause_eval = analyze_root_cause_def rc_frame_def rc_row_def event_at_def df_empty_def
  sensor_contribution_def col_mean_def col_std_def col_def series_mean_def series_std_def
  nan_deviation_def sort_values_desc_na_def sort_values_desc_def head_def Let_def
  sensor_cols_def sublist_code

lemma sensor_contribution_cases:
  "sensor_contribution fmean fstd b w s =
     (if list_ex is_text (col b s) then Inl TypeError
      else if series_std fstd (numbers (col b s)) = Some 0 then Inr None
      else if list_ex is_text (col w s) then Inl TypeError
      else Inr (Some (score_row fmean fstd b w s)))"
  by (simp add: sensor_contribution_def col_mean_def col_std_def score_row_def)

lemma contributions_of_eq:
  "contributions_of fmean fstd b w ss = map (score_row fmean fstd b w) (filter (scored fstd b w) ss)"
  by (induction ss) (simp_all add: sensor_contribution_cases scored_def)

lemma mset_sort_values_desc_na [simp]: "mset (sort_values_desc_na key xs) = mset xs"
  by (simp add: sort_values_desc_na_def)

lemma sorted_wrt_sort_values_desc_na:
  "sorted_wrt (\<lambda>a c. na_ge (key a) (key c)) (sort_values_desc_na key xs)"
proof -
  let ?ys = "sort_values_desc (\<lambda>x. the (key x)) (filter (\<lambda>x. key x \<noteq> None) xs)"
  let ?ns = "filter (\<lambda>x. key x = None) xs"
  have s: "sorted_wrt (\<lambda>a c. the (key a) \<ge> the (key c)) ?ys"
    by (rule sorted_wrt_sort_values_desc)
  have some: "\<And>a. a \<in> set ?ys \<Longrightarrow> \<exists>v. key a = Some v" by auto
  have 1: "sorted_wrt (\<lambda>a c. na_ge (key a) (key c)) ?ys"
  proof (rule sorted_wrt_mono_rel [OF _ s])
    fix a c assume "a \<in> set ?ys" "c \<in> set ?ys" "the (key c) \<le> the (key a)"
    then show "na_ge (key a) (key c)" using some [of a] some [of c] by auto
  qed
  have none: "\<And>c. c \<in> set ?ns \<Longrightarrow> key c = None" by simp
  have 2: "sorted_wrt (\<lambda>a c. na_ge (key a) (key c)) ?ns"
  proof (rule sorted_wrt_mono_rel [where P = "\<lambda>a c. True"])
    fix a c assume "c \<in> set ?ns"
    then show "na_ge (key a) (key c)" using none [of c] by simp
  next
    show "sorted_wrt (\<lambda>a c. True) ?ns" by (induction xs) auto
  qed
  have 3: "\<forall>a \<in> set ?ys. \<forall>c \<in> set ?ns. na_ge (key a) (key c)"
    using none by simp
  show ?thesis
    unfolding sort_values_desc_na_def sorted_wrt_append using 1 2 3 by blast
qed

lemma score_row_nonneg:
  assumes "\<forall>xs. 0 \<le> fstd xs" "deviation_score (score_row fmean fstd b w s) = Some x"
  shows "0 \<le> x"
proof -
  from assms(2) obtain e m sd where "x = \<bar>e - m\<bar> / sd"
    and "series_std fstd (numbers (col b s)) = Some sd"
    by (auto simp: score_row_def nan_deviation_def split: option.splits)
  moreover from this assms(1) have "0 \<le> sd"
    by (auto simp: series_std_def split: if_splits)
  ultimately show ?thesis by simp
qed

lemma score_row_nan:
  "deviation_score (score_row fmean fstd b w s) = None
     \<longleftrightarrow> length (numbers (col b s)) \<le> 1 \<or> numbers (col w s) = []"
  by (auto simp: score_row_def nan_deviation_def series_mean_def series_std_def
      split: option.splits if_splits)

text \<open>
  The ranking when it is returned. With a NORMAL baseline, a window with rows and at least
  one sensor that reaches the ranking, the analyzer returns the first \<open>top_n\<close> rows of the
  ranking: one row per sensor whose computation does not raise and whose computed baseline
  deviation is not 0, with the score of the specification, ordered by descending score with
  the \<^verbatim>\<open>NaN\<close> scores last. A score is \<^verbatim>\<open>NaN\<close> exactly when the baseline holds fewer than
  two readings of the sensor or the window none; a score that is a number is at least 0,
  the computed deviations being at least 0.
\<close>

lemma analyze_root_cause_ranking:
  fixes df :: dataset and event_row :: event and fmean fstd :: "real list \<Rightarrow> real"
  defines "baseline_df \<equiv> filter (\<lambda>r. machine_status r = ''NORMAL'') (rows df)"
    and "event_window_df \<equiv> filter (\<lambda>r. timestamp r \<ge> start_time event_row \<and> timestamp r \<le> end_time event_row) (rows df)"
  defines "ranked \<equiv> sort_values_desc_na deviation_score
      (map (score_row fmean fstd baseline_df event_window_df)
         (filter (scored fstd baseline_df event_window_df) (sensor_cols df)))"
  assumes "\<not> df_empty df" "baseline_df \<noteq> []" "event_window_df \<noteq> []"
    and "\<exists>s \<in> set (sensor_cols df). scored fstd baseline_df event_window_df s"
  shows "analyze_root_cause fmean fstd df event_row top_n = Inr (head top_n ranked)
    \<and> mset ranked = mset (map (score_row fmean fstd baseline_df event_window_df)
          (filter (scored fstd baseline_df event_window_df) (sensor_cols df)))
    \<and> sorted_wrt (\<lambda>a c. na_ge (deviation_score a) (deviation_score c)) ranked
    \<and> ((\<forall>xs. 0 \<le> fstd xs) \<longrightarrow> (\<forall>c \<in> set ranked. \<forall>x. deviation_score c = Some x \<longrightarrow> 0 \<le> x))
    \<and> (\<forall>c \<in> set ranked. deviation_score c = None
          \<longleftrightarrow> length (numbers (col baseline_df (rc_sensor c))) \<le> 1
              \<or> numbers (col event_window_df (rc_sensor c)) = [])
    \<and> (\<forall>c \<in> set ranked. series_std fstd (numbers (col baseline_df (rc_sensor c))) \<noteq> Some 0)
    \<and> (0 \<le> top_n \<longrightarrow> head top_n ranked = take (nat top_n) ranked)"
proof -
  let ?cs = "map (score_row fmean fstd baseline_df event_window_df)
     (filter (scored fstd baseline_df event_window_df) (sensor_cols df))"
  from assms(7) have ne: "?cs \<noteq> []" by (auto simp: filter_empty_conv)
  have run: "analyze_root_cause fmean fstd df event_row top_n = Inr (head top_n ranked)"
    using assms(4,5,6) ne
    by (simp add: analyze_root_cause_def Let_def contributions_of_eq ranked_def
        baseline_df_def event_window_df_def)
  have set_ranked: "set ranked = set ?cs"
    unfolding ranked_def by (rule mset_eq_setD) simp
  have nonneg: "(\<forall>xs. 0 \<le> fstd xs)
      \<longrightarrow> (\<forall>c \<in> set ranked. \<forall>x. deviation_score c = Some x \<longrightarrow> 0 \<le> x)"
    unfolding set_ranked using score_row_nonneg [of fstd fmean] by auto
  have nan: "\<forall>c \<in> set ranked. deviation_score c = None
          \<longleftrightarrow> length (numbers (col baseline_df (rc_sensor c))) \<le> 1
              \<or> numbers (col event_window_df (rc_sensor c)) = []"
  proof
    fix c assume "c \<in> set ranked"
    then obtain s where c: "c = score_row fmean fstd baseline_df event_window_df s"
      unfolding set_ranked by auto
    have "rc_sensor c = s" by (simp add: c score_row_def)
    then show "deviation_score c = None
          \<longleftrightarrow> length (numbers (col baseline_df (rc_sensor c))) \<le> 1
              \<or> numbers (col event_window_df (rc_sensor c)) = []"
      using score_row_nan [of fmean fstd baseline_df event_window_df s] by (simp add: c)
  qed
  have nz: "\<forall>c \<in> set ranked. series_std fstd (numbers (col baseline_df (rc_sensor c))) \<noteq> Some 0"
    unfolding set_ranked by (auto simp: scored_def score_row_def)
  have srt: "sorted_wrt (\<lambda>a c. na_ge (deviation_score a) (deviation_score c)) ranked"
    unfolding ranked_def by (rule sorted_wrt_sort_values_desc_na)
  have perm: "mset ranked = mset ?cs" by (simp add: ranked_def)
  have hd: "0 \<le> top_n \<longrightarrow> head top_n ranked = take (nat top_n) ranked"
    by (simp add: head_def)
  from run perm srt nonneg nan nz hd show ?thesis by blast
qed

text \<open>An example: baselines 1, 2, 3 and 0, 2, 4 and a constant one.\<close>

lemma analyze_root_cause_ranking_example:
  "analyze_root_cause exact_mean exact_std
     (rc_frame [rc_row 0 ''NORMAL'' (Num 1) (Num 0) (Num 7),
       rc_row 60 ''NORMAL'' (Num 2) (Num 2) (Num 7), rc_row 120 ''NORMAL'' (Num 3) (Num 4) (Num 7),
       rc_row 180 ''BROKEN'' (Num 5) (Num 12) (Num 9)]) (event_at 180 180) 3
   = Inr [\<lparr>rc_sensor = ''sensor_01'', deviation_score = Some 5, event_mean = Some 12,
            baseline_mean = Some 2\<rparr>,
          \<lparr>rc_sensor = ''sensor_00'', deviation_score = Some 3, event_mean = Some 5,
            baseline_mean = Some 2\<rparr>]"
  by (simp add: root_cause_eval exact_mean_def exact_std_def sq_dev_def)

text \<open>
  C4, at a baseline of one row: the sample deviation of one reading is \<^verbatim>\<open>NaN\<close>, the test
  \<^verbatim>\<open>sigma_baseline == 0\<close> is false on it, and every sensor is returned with the score
  \<^verbatim>\<open>NaN\<close>, where the claim has every returned score at least 0.
\<close>

theorem analyze_root_cause_nan_score:
  "analyze_root_cause fmean fstd (rc_frame [rc_row 0 ''NORMAL'' (Num 1) (Num 7) (Num 3),
       rc_row 60 ''BROKEN'' (Num 5) (Num 7) (Num 4)]) (event_at 60 60) 3
   = Inr [\<lparr>rc_sensor = ''sensor_00'', deviation_score = None, event_mean = Some (fmean [5]),
            baseline_mean = Some (fmean [1])\<rparr>,
          \<lparr>rc_sensor = ''sensor_01'', deviation_score = None, event_mean = Some (fmean [7]),
            baseline_mean = Some (fmean [7])\<rparr>,
          \<lparr>rc_sensor = ''sensor_02'', deviation_score = None, event_mean = Some (fmean [4]),
            baseline_mean = Some (fmean [3])\<rparr>]"
  by (simp add: root_cause_eval)

text \<open>An empty frame, a frame without NORMAL rows and a window without rows give the
  empty result.\<close>

lemma analyze_root_cause_degenerate:
  "df_empty df \<or> filter (\<lambda>r. machine_status r = ''NORMAL'') (rows df) = []
     \<or> filter (\<lambda>r. timestamp r \<ge> start_time event_row \<and> timestamp r \<le> end_time event_row) (rows df) = []
   \<Longrightarrow> analyze_root_cause fmean fstd df event_row top_n = Inr []"
  by (auto simp: analyze_root_cause_def Let_def)

text \<open>
  C5, at a frame whose sensor columns all hold text: every sensor's computation raises and
  is dropped, and then the analyzer raises \<open>KeyError\<close> where the claim has it return the
  (empty) ranking.
\<close>

theorem analyze_root_cause_all_dropped:
  "analyze_root_cause fmean fstd
     (rc_frame [rc_row 0 ''NORMAL'' (Str ''a'') (Str ''b'') (Str ''c''),
       rc_row 60 ''BROKEN'' (Str ''d'') (Str ''e'') (Str ''f'')]) (event_at 60 60) 3
   = Inl KeyError"
  by (simp add: root_cause_eval)

text \<open>The same happens when the computed deviation of every sensor is 0 over the
  baseline.\<close>

lemma analyze_root_cause_all_constant:
  assumes "fstd [7, 7] = 0" "fstd [8, 8] = 0" "fstd [9, 9] = 0"
  shows "analyze_root_cause fmean fstd
     (rc_frame [rc_row 0 ''NORMAL'' (Num 7) (Num 8) (Num 9),
       rc_row 30 ''NORMAL'' (Num 7) (Num 8) (Num 9),
       rc_row 60 ''BROKEN'' (Num 5) (Num 6) (Num 7)]) (event_at 60 60) 3
   = Inl KeyError"
  using assms by (simp add: root_cause_eval)

section \<open>Gap filling and scaling\<close>

lemmas preprocess_eval = preprocess_def fill_gaps_def dropna_all_def ffill_def sublist_code
  scaler_fit_transform_def pca_fit_transform_def scale_column_def sq_dev_def Let_def

lemma length_ffill_from [simp]: "length (ffill_from p cs) = length cs"
  by (induction cs arbitrary: p) auto

lemma length_bfill [simp]: "length (bfill cs) = length cs"
  by (induction cs) auto

lemma ffill_from_valid: "p \<noteq> NaN \<Longrightarrow> NaN \<notin> set (ffill_from p cs)"
  by (induction cs arbitrary: p) auto

lemma bfill_id: "NaN \<notin> set cs \<Longrightarrow> bfill cs = cs"
  by (induction cs) auto

lemma last_valid_Cons:
  "last_valid (c # cs) = (case last_valid cs of Some v \<Rightarrow> Some v | None \<Rightarrow> if c = NaN then None else Some c)"
  by (auto simp: last_valid_def split: list.splits)

lemma first_valid_Cons:
  "first_valid (c # cs) = (if c = NaN then first_valid cs else Some c)"
  by (auto simp: first_valid_def split: list.splits)

lemma ffill_from_nth:
  "i < length cs \<Longrightarrow>
     ffill_from p cs ! i = (case last_valid (take (Suc i) cs) of Some v \<Rightarrow> v | None \<Rightarrow> p)"
proof (induction cs arbitrary: p i)
  case Nil
  then show ?case by simp
next
  case (Cons c cs)
  show ?case
  proof (cases i)
    case 0
    then show ?thesis by (simp add: last_valid_def)
  next
    case (Suc j)
    with Cons.prems have j: "j < length cs" by simp
    show ?thesis using Suc Cons.IH [OF j]
      by (auto simp: last_valid_Cons split: option.splits)
  qed
qed

lemma gap_fill_spec_0:
  "cs \<noteq> [] \<Longrightarrow> gap_fill_spec cs 0 = (case first_valid cs of Some v \<Rightarrow> v | None \<Rightarrow> NaN)"
  by (cases cs) (auto simp: gap_fill_spec_def last_valid_def first_valid_Cons)

lemma bfill_ffill_nth:
  "i < length cs \<Longrightarrow> bfill (ffill_from NaN cs) ! i = gap_fill_spec cs i"
proof (induction cs arbitrary: i)
  case Nil
  then show ?case by simp
next
  case (Cons c cs)
  show ?case
  proof (cases "c = NaN")
    case False
    then have "bfill (ffill_from NaN (c # cs)) = c # ffill_from c cs"
      by (simp add: bfill_id ffill_from_valid)
    moreover have "(c # ffill_from c cs) ! i = gap_fill_spec (c # cs) i"
    proof (cases i)
      case 0
      with False show ?thesis by (simp add: gap_fill_spec_def last_valid_def)
    next
      case (Suc j)
      with Cons.prems have "j < length cs" by simp
      then show ?thesis using Suc False
        by (auto simp: ffill_from_nth gap_fill_spec_def last_valid_Cons split: option.splits)
    qed
    ultimately show ?thesis by simp
  next
    case True
    show ?thesis
    proof (cases i)
      case 0
      show ?thesis
      proof (cases "cs = []")
        case True
        with \<open>c = NaN\<close> 0 show ?thesis
          by (simp add: gap_fill_spec_def last_valid_def first_valid_def)
      next
        case False
        then have "bfill (ffill_from NaN cs) ! 0 = gap_fill_spec cs 0"
          using Cons.IH [of 0] by simp
        moreover from False have "bfill (ffill_from NaN cs) \<noteq> []"
          by (metis length_bfill length_ffill_from length_0_conv)
        ultimately have "(case bfill (ffill_from NaN cs) of [] \<Rightarrow> NaN | d # _ \<Rightarrow> d)
            = gap_fill_spec cs 0"
          by (cases "bfill (ffill_from NaN cs)") auto
        moreover have "gap_fill_spec (NaN # cs) 0 = gap_fill_spec cs 0"
          using False by (simp add: gap_fill_spec_0 first_valid_Cons)
        ultimately show ?thesis using \<open>c = NaN\<close> 0 by simp
      qed
    next
      case (Suc j)
      with Cons.prems have "j < length cs" by simp
      then have "bfill (ffill_from NaN cs) ! j = gap_fill_spec cs j" by (rule Cons.IH)
      moreover have "gap_fill_spec (NaN # cs) (Suc j) = gap_fill_spec cs j"
        by (simp add: gap_fill_spec_def last_valid_Cons split: option.splits)
      ultimately show ?thesis using True Suc by simp
    qed
  qed
qed


lemma last_valid_Some: "last_valid cs = Some v \<Longrightarrow> v \<noteq> NaN \<and> v \<in> set cs"
proof -
  assume a: "last_valid cs = Some v"
  then have ne: "filter (\<lambda>c. c \<noteq> NaN) cs \<noteq> []" and v: "v = last (filter (\<lambda>c. c \<noteq> NaN) cs)"
    by (auto simp: last_valid_def split: list.splits)
  from ne have "last (filter (\<lambda>c. c \<noteq> NaN) cs) \<in> set (filter (\<lambda>c. c \<noteq> NaN) cs)"
    by (rule last_in_set)
  with v show ?thesis by simp
qed

lemma first_valid_Some: "first_valid cs = Some v \<Longrightarrow> v \<noteq> NaN \<and> v \<in> set cs"
proof -
  assume a: "first_valid cs = Some v"
  then obtain vs where "filter (\<lambda>c. c \<noteq> NaN) cs = v # vs"
    by (auto simp: first_valid_def split: list.splits)
  then have "v \<in> set (filter (\<lambda>c. c \<noteq> NaN) cs)" by simp
  then show ?thesis by simp
qed

lemma last_valid_None: "last_valid cs = None \<longleftrightarrow> (\<forall>c \<in> set cs. c = NaN)"
proof -
  have "last_valid cs = None \<longleftrightarrow> filter (\<lambda>c. c \<noteq> NaN) cs = []"
    by (simp add: last_valid_def split: list.splits)
  then show ?thesis by (simp add: filter_empty_conv)
qed

lemma first_valid_None: "first_valid cs = None \<longleftrightarrow> (\<forall>c \<in> set cs. c = NaN)"
proof -
  have "first_valid cs = None \<longleftrightarrow> filter (\<lambda>c. c \<noteq> NaN) cs = []"
    by (simp add: first_valid_def split: list.splits)
  then show ?thesis by (simp add: filter_empty_conv)
qed

lemma gap_fill_spec_NaN:
  "gap_fill_spec cs i = NaN \<longleftrightarrow> (\<forall>c \<in> set cs. c = NaN)"
proof
  assume a: "gap_fill_spec cs i = NaN"
  then have "last_valid (take (Suc i) cs) = None \<and> first_valid (drop (Suc i) cs) = None"
    by (auto simp: gap_fill_spec_def split: option.splits dest: last_valid_Some first_valid_Some)
  then have "\<forall>c \<in> set (take (Suc i) cs) \<union> set (drop (Suc i) cs). c = NaN"
    by (auto simp: last_valid_None first_valid_None)
  then show "\<forall>c \<in> set cs. c = NaN"
    by (metis append_take_drop_id set_append)
next
  assume a: "\<forall>c \<in> set cs. c = NaN"
  then have "last_valid (take (Suc i) cs) = None" "first_valid (drop (Suc i) cs) = None"
    by (auto simp: last_valid_None first_valid_None dest: in_set_takeD in_set_dropD)
  then show "gap_fill_spec cs i = NaN" by (simp add: gap_fill_spec_def)
qed

lemma bfill_ffill_eq: "bfill (ffill cs) = map (gap_fill_spec cs) [0..<length cs]"
  by (rule nth_equalityI) (simp_all add: ffill_def bfill_ffill_nth)

lemma filled_all_missing:
  "list_all (\<lambda>c. c = NaN) (bfill (ffill cs)) \<longleftrightarrow> list_all (\<lambda>c. c = NaN) cs"
proof (cases "cs = []")
  case True
  then show ?thesis by (simp add: ffill_def)
next
  case False
  then show ?thesis
    by (auto simp: bfill_ffill_eq list_all_iff gap_fill_spec_NaN)
qed

lemma filled_no_missing:
  assumes "\<not> list_all (\<lambda>c. c = NaN) cs"
  shows "NaN \<notin> set (bfill (ffill cs))"
proof
  assume "NaN \<in> set (bfill (ffill cs))"
  then obtain i where "gap_fill_spec cs i = NaN"
    unfolding bfill_ffill_eq by (auto simp: image_iff) metis
  then have "\<forall>c \<in> set cs. c = NaN" by (simp add: gap_fill_spec_NaN)
  with assms show False by (simp add: list_all_iff)
qed

lemma cleaned_eq:
  "dropna_all (fill_gaps df)
     = map (\<lambda>(name, cs). (name, map (gap_fill_spec cs) [0..<length cs]))
         (filter (\<lambda>(name, cs). \<exists>c \<in> set cs. c \<noteq> NaN) df)"
proof -
  have 1: "(\<lambda>(name, cs). (name, bfill (ffill cs)))
      = (\<lambda>(name, cs). (name, map (gap_fill_spec cs) [0..<length cs]))"
    by (simp add: bfill_ffill_eq)
  have 2: "(\<lambda>(name, cs). \<not> list_all (\<lambda>c. c = NaN) cs) \<circ> (\<lambda>(name, cs). (name, bfill (ffill cs)))
      = (\<lambda>(name, cs). \<exists>c \<in> set cs. c \<noteq> NaN)"
    using filled_all_missing [unfolded list_all_iff]
    by (auto simp: fun_eq_iff list_all_iff)
  show ?thesis
    unfolding dropna_all_def fill_gaps_def filter_map 2 by (simp only: 1)
qed

lemma cleaned_no_missing: "(name, cs) \<in> set (dropna_all (fill_gaps df)) \<Longrightarrow> NaN \<notin> set cs"
  unfolding dropna_all_def fill_gaps_def
  by (auto simp: filled_all_missing dest: filled_no_missing)

lemma set_col_pred:
  "\<forall>(n, cs) \<in> set df. P cs \<Longrightarrow> P vs \<Longrightarrow> \<forall>(n, cs) \<in> set (set_col name vs df). P cs"
  by (induction df) (auto split: if_splits)

lemma preprocess_no_missing:
  assumes "preprocess pca df = Inr out" "(name, cs) \<in> set out"
  shows "NaN \<notin> set cs"
proof -
  let ?clean = "dropna_all (fill_gaps df)"
  from assms(1) obtain pcs where out: "out = set_col ''anomaly_score''
        (map (\<lambda>(p1, p2). Num (sqrt (p1\<^sup>2 + p2\<^sup>2))) pcs)
        (set_col ''PCA_2'' (map (\<lambda>p. Num (snd p)) pcs)
        (set_col ''PCA_1'' (map (\<lambda>p. Num (fst p)) pcs) ?clean))"
    by (auto simp: preprocess_def Let_def split: sum.splits)
  have "\<forall>(n, cs) \<in> set ?clean. NaN \<notin> set cs"
    using cleaned_no_missing by auto
  then have "\<forall>(n, cs) \<in> set (set_col ''PCA_1'' (map (\<lambda>p. Num (fst p)) pcs) ?clean). NaN \<notin> set cs"
    by (rule set_col_pred) auto
  then have "\<forall>(n, cs) \<in> set (set_col ''PCA_2'' (map (\<lambda>p. Num (snd p)) pcs)
        (set_col ''PCA_1'' (map (\<lambda>p. Num (fst p)) pcs) ?clean)). NaN \<notin> set cs"
    by (rule set_col_pred) auto
  then have "\<forall>(n, cs) \<in> set out. NaN \<notin> set cs"
    unfolding out by (rule set_col_pred) auto
  with assms(2) show ?thesis by auto
qed

text \<open>The order of the two fills matters: the value before a gap wins over the one after.\<close>

lemma ffill_then_bfill_example:
  "bfill (ffill [NaN, Num 1, NaN, Num 3, NaN]) = [Num 1, Num 1, Num 1, Num 3, Num 3]
   \<and> ffill (bfill [NaN, Num 1, NaN, Num 3, NaN]) = [Num 1, Num 1, Num 3, Num 3, Num 3]"
  by (simp add: ffill_def)

lemma cleaned_nonempty: "(name, cs) \<in> set (dropna_all (fill_gaps df)) \<Longrightarrow> cs \<noteq> []"
  unfolding dropna_all_def by auto

lemma length_scale_column [simp]: "length (scale_column cs) = length cs"
  by (simp add: scale_column_def Let_def)

lemma scale_column_Nil [simp]: "scale_column cs = [] \<longleftrightarrow> cs = []"
  by (simp add: scale_column_def Let_def)

lemma scale_column_no_missing:
  assumes "NaN \<notin> set cs" "\<not> list_ex is_text cs"
  shows "\<not> list_ex (\<lambda>v. v = None) (scale_column cs)"
proof
  assume "list_ex (\<lambda>v. v = None) (scale_column cs)"
  then obtain c where c: "c \<in> set cs" and "c = NaN \<or> (\<exists>t. c = Str t)"
    by (auto simp: scale_column_def Let_def list_ex_iff split: cell.splits)
  with assms show False by (auto simp: list_ex_iff)
qed

text \<open>Preprocessing in terms of its cleaned frame: the scaler sees the sensor columns of
  the cleaned frame, and the result is the cleaned frame with the three new columns.\<close>

lemma preprocess_cleaned:
  fixes df :: frame
  defines "clean \<equiv> dropna_all (fill_gaps df)"
  defines "sensor_frame \<equiv> map snd (filter (\<lambda>(name, cs). sublist ''sensor'' name) clean)"
  shows "preprocess pca df =
     (if sensor_frame = [] \<or> list_ex (list_ex is_text) sensor_frame
         \<or> min (length (hd sensor_frame)) (length sensor_frame) < 2
      then Inl ValueError
      else Inr (add_health_columns (pca (map (map the) (map scale_column sensor_frame))) clean))"
proof -
  have cols: "\<And>cs. cs \<in> set sensor_frame \<Longrightarrow> cs \<noteq> [] \<and> NaN \<notin> set cs"
    unfolding sensor_frame_def clean_def
    using cleaned_nonempty cleaned_no_missing by fastforce
  have pre: "preprocess pca df =
     (case scaler_fit_transform sensor_frame of
        Inl e \<Rightarrow> Inl e
      | Inr x_scaled \<Rightarrow>
          (case pca_fit_transform pca x_scaled of
             Inl e \<Rightarrow> Inl e
           | Inr principal_components \<Rightarrow> Inr (add_health_columns principal_components clean)))"
    unfolding preprocess_def Let_def add_health_columns_def sensor_frame_def clean_def ..
  show ?thesis
  proof (cases "sensor_frame = [] \<or> list_ex (list_ex is_text) sensor_frame")
    case True
    then show ?thesis by (auto simp: pre scaler_fit_transform_def)
  next
    case False
    then have ne: "sensor_frame \<noteq> []" and num: "\<not> list_ex (list_ex is_text) sensor_frame"
      by auto
    from ne have "hd sensor_frame \<in> set sensor_frame" by simp
    with cols have hd: "hd sensor_frame \<noteq> []" by blast
    from ne hd num have sc: "scaler_fit_transform sensor_frame = Inr (map scale_column sensor_frame)"
      by (simp add: scaler_fit_transform_def)
    have "\<And>cs. cs \<in> set sensor_frame \<Longrightarrow> \<not> list_ex (\<lambda>v. v = None) (scale_column cs)"
    proof -
      fix cs assume cs: "cs \<in> set sensor_frame"
      with cols have "NaN \<notin> set cs" by blast
      moreover from cs num have "\<not> list_ex is_text cs" by (auto simp: list_ex_iff)
      ultimately show "\<not> list_ex (\<lambda>v. v = None) (scale_column cs)"
        by (rule scale_column_no_missing)
    qed
    then have nonan: "\<not> list_ex (list_ex (\<lambda>v. v = None)) (map scale_column sensor_frame)"
      by (auto simp: list_ex_iff)
    from ne hd have shape: "map scale_column sensor_frame \<noteq> []"
        "hd (map scale_column sensor_frame) \<noteq> []"
        "length (hd (map scale_column sensor_frame)) = length (hd sensor_frame)"
      by (simp_all add: hd_map)
    have "pca_fit_transform pca (map scale_column sensor_frame) =
       (if min (length (hd sensor_frame)) (length sensor_frame) < 2 then Inl ValueError
        else Inr (pca (map (map the) (map scale_column sensor_frame))))"
      using nonan shape by (simp add: pca_fit_transform_def)
    with False sc show ?thesis by (simp add: pre)
  qed
qed

text \<open>
  C9. Preprocessing first fills every column forward and then backward: each cell of a
  kept column is the last value at or before it, else the first value after it. Exactly
  the columns without any value are dropped, in place, and no cell of the cleaned frame is
  missing. The scaler is given the sensor columns of this cleaned frame, and what
  preprocessing returns is this cleaned frame with the three new columns; it raises only
  when the cleaned frame has no sensor column, text in one, or fewer than two sensor
  columns or rows.
\<close>

theorem preprocess_gap_fill:
  fixes df :: frame
  defines "clean \<equiv> map (\<lambda>(name, cs). (name, map (gap_fill_spec cs) [0..<length cs]))
       (filter (\<lambda>(name, cs). \<exists>c \<in> set cs. c \<noteq> NaN) df)"
  defines "sensor_frame \<equiv> map snd (filter (\<lambda>(name, cs). sublist ''sensor'' name) clean)"
  shows "dropna_all (fill_gaps df) = clean
   \<and> (\<forall>(name, cs) \<in> set clean. NaN \<notin> set cs)
   \<and> preprocess pca df =
       (if sensor_frame = [] \<or> list_ex (list_ex is_text) sensor_frame
           \<or> min (length (hd sensor_frame)) (length sensor_frame) < 2
        then Inl ValueError
        else Inr (add_health_columns (pca (map (map the) (map scale_column sensor_frame))) clean))"
proof -
  have eq: "dropna_all (fill_gaps df) = clean"
    unfolding clean_def by (rule cleaned_eq)
  have "\<forall>(name, cs) \<in> set (dropna_all (fill_gaps df)). NaN \<notin> set cs"
    using cleaned_no_missing by blast
  then have nomiss: "\<forall>(name, cs) \<in> set clean. NaN \<notin> set cs" by (simp only: eq)
  have "preprocess pca df =
       (if sensor_frame = [] \<or> list_ex (list_ex is_text) sensor_frame
           \<or> min (length (hd sensor_frame)) (length sensor_frame) < 2
        then Inl ValueError
        else Inr (add_health_columns (pca (map (map the) (map scale_column sensor_frame))) clean))"
    using preprocess_cleaned [of pca df] unfolding eq sensor_frame_def by simp
  with eq nomiss show ?thesis by blast
qed

theorem preprocess_gap_fill_witness:
  "dropna_all (fill_gaps flat_frame) = [(''timestamp'', [Num 0, Num 60, Num 120]),
     (''sensor_00'', [Num 5, Num 5, Num 5]),
     (''sensor_01'', [Num 1, Num 1, Num 3]),
     (''machine_status'', [Str ''NORMAL'', Str ''BROKEN'', Str ''NORMAL''])]
   \<and> preprocess origin_projection flat_frame
     = Inr [(''timestamp'', [Num 0, Num 60, Num 120]),
         (''sensor_00'', [Num 5, Num 5, Num 5]),
         (''sensor_01'', [Num 1, Num 1, Num 3]),
         (''machine_status'', [Str ''NORMAL'', Str ''BROKEN'', Str ''NORMAL'']),
         (''PCA_1'', [Num 0, Num 0, Num 0]), (''PCA_2'', [Num 0, Num 0, Num 0]),
         (''anomaly_score'', [Num 0, Num 0, Num 0])]"
proof -
  have clean: "dropna_all (fill_gaps flat_frame) = [(''timestamp'', [Num 0, Num 60, Num 120]),
     (''sensor_00'', [Num 5, Num 5, Num 5]),
     (''sensor_01'', [Num 1, Num 1, Num 3]),
     (''machine_status'', [Str ''NORMAL'', Str ''BROKEN'', Str ''NORMAL''])]"
    by (simp add: flat_frame_def fill_gaps_def dropna_all_def ffill_def)
  from preprocess_gap_fill [of flat_frame origin_projection]
  have "preprocess origin_projection flat_frame =
       (let sensor_frame = map snd (filter (\<lambda>(name, cs). sublist ''sensor'' name)
              (dropna_all (fill_gaps flat_frame)))
        in if sensor_frame = [] \<or> list_ex (list_ex is_text) sensor_frame
              \<or> min (length (hd sensor_frame)) (length sensor_frame) < 2
           then Inl ValueError
           else Inr (add_health_columns
                  (origin_projection (map (map the) (map scale_column sensor_frame)))
                  (dropna_all (fill_gaps flat_frame))))"
    by (simp add: Let_def)
  then have "preprocess origin_projection flat_frame
     = Inr [(''timestamp'', [Num 0, Num 60, Num 120]),
         (''sensor_00'', [Num 5, Num 5, Num 5]),
         (''sensor_01'', [Num 1, Num 1, Num 3]),
         (''machine_status'', [Str ''NORMAL'', Str ''BROKEN'', Str ''NORMAL'']),
         (''PCA_1'', [Num 0, Num 0, Num 0]), (''PCA_2'', [Num 0, Num 0, Num 0]),
         (''anomaly_score'', [Num 0, Num 0, Num 0])]"
    unfolding clean
    by (simp add: sublist_code add_health_columns_def origin_projection_def scale_column_def
        sq_dev_def Let_def)
  with clean show ?thesis by simp
qed

text \<open>
  C6, as amended. Preprocessing raises when no sensor column is left to scale: when every
  column whose name contains \<^verbatim>\<open>sensor\<close> is entirely missing, and so when there is none.
\<close>

theorem preprocess_no_sensor_columns:
  assumes "\<forall>(name, cs) \<in> set df. sublist ''sensor'' name \<longrightarrow> list_all (\<lambda>c. c = NaN) cs"
  shows "preprocess pca df = Inl ValueError"
proof -
  have "filter (\<lambda>(name, cs). sublist ''sensor'' name) (dropna_all (fill_gaps df)) = []"
    using assms unfolding dropna_all_def fill_gaps_def
    by (auto simp: filter_empty_conv filled_all_missing)
  then show ?thesis
    by (simp add: preprocess_def Let_def scaler_fit_transform_def)
qed

theorem preprocess_no_sensor_columns_witness:
  "preprocess origin_projection meta_frame = Inl ValueError
   \<and> preprocess origin_projection [] = Inl ValueError"
  using preprocess_no_sensor_columns [of meta_frame origin_projection]
    preprocess_no_sensor_columns [of "[]" origin_projection]
  by (simp add: meta_frame_def sublist_code)

text \<open>
  C6, as stated, fails on a frame with a constant sensor column: the scaler divides the
  column by 1 and preprocessing returns a frame.
\<close>

theorem preprocess_zero_variance_returns:
  "preprocess origin_projection stuck_frame
     = Inr [(''timestamp'', [Num 0, Num 60, Num 120]),
         (''sensor_00'', [Num 5, Num 5, Num 5]),
         (''sensor_01'', [Num 2, Num 4, Num 6]),
         (''machine_status'', [Str ''NORMAL'', Str ''BROKEN'', Str ''NORMAL'']),
         (''PCA_1'', [Num 0, Num 0, Num 0]), (''PCA_2'', [Num 0, Num 0, Num 0]),
         (''anomaly_score'', [Num 0, Num 0, Num 0])]"
  by (simp add: preprocess_eval stuck_frame_def origin_projection_def)

text \<open>The same holds whatever projection is fitted.\<close>

lemma preprocess_zero_variance_any_projection:
  "\<exists>out. preprocess pca stuck_frame = Inr out"
  by (simp add: preprocess_eval stuck_frame_def)

end
